theory Spec2Isabelle
  imports Complex_Main
begin

section \<open>Product matcher: the function-calling loop of \<open>src/product_matcher.py\<close>\<close>

text \<open>
  The development embeds \<open>ProductMatcher.process_transcript\<close>, its helper
  \<open>_search_products_function\<close>, \<open>EmbeddingGenerator.generate_embedding\<close> and the
  Pydantic models \<open>MatchedProduct\<close> and \<open>ProcessingResult\<close>.

  Conventions of the embedding:
  \<^item> Python floats (similarity scores, confidences, the threshold) are exact rationals;
    \<open>round(x, 2)\<close> is rounding to two decimals with ties to the even neighbour.
  \<^item> A raised exception is the \<open>Inl\<close> branch of a sum; \<open>except Exception\<close> followed by
    \<open>raise\<close> is the identity and is not written.
  \<^item> The three remote services (chat completion, embeddings, vector search), the JSON
    parser \<open>json.loads\<close> and Pydantic's coercion of ill-typed values are not code of the
    repository: they are fields of the record \<open>env\<close>, and every theorem holds for all of
    them. A remote service answers as a function of the log of all remote calls made so
    far and of its arguments, so it may answer the same request differently at different
    times; each remote call is appended to that log.
  \<^item> The write-only local \<open>current_context\<close> and all logging are left out.
\<close>

subsection \<open>Values\<close>

datatype json =
    JNull
  | JBool bool
  | JNum rat
  | JStr string
  | JArr "json list"
  | JObj "(string \<times> json) list"

datatype error =
    ValueError
  | JSONDecodeError
  | AttributeError
  | TypeError
  | IndexError
  | ValidationError
  | ServiceError string

text \<open>\<open>SearchResult\<close> of \<open>src/models.py\<close>: the score is an unconstrained float.\<close>

record SearchResult =
  sr_product_id :: string
  sr_product_name :: string
  score :: rat

text \<open>
  The dictionaries built by \<open>_search_products_function\<close> have the keys \<open>product_name\<close>
  and \<open>confidence\<close>; \<open>process_transcript\<close> then stores the query under \<open>context\<close> in
  the same dictionary object, which is both appended to the accumulator and serialised
  into the tool message.
\<close>

record result_dict =
  product_name :: string
  confidence :: rat

record candidate = result_dict +
  context' :: json

record MatchedProduct =
  mp_product_name :: string
  mp_confidence :: rat
  mp_context :: string

record ProcessingResult =
  matched_products :: "MatchedProduct list"
  competitor_advantage_mentioned :: bool
  bad_placement_mentioned :: bool
  raw_text :: string

record tool_call =
  tc_id :: string
  function_name :: string
  arguments :: string

text \<open>\<open>response.choices[i].message\<close>: both attributes may be \<open>None\<close>.\<close>

record llm_message =
  tool_calls :: "tool_call list option"
  content :: "string option"

datatype message =
    System string
  | User string
  | Assistant "tool_call list"
  | Tool string string "candidate list"

datatype call =
    ChatCompletion "message list"
  | EmbeddingsCreate string
  | VectorSearch "rat list" int

record env =
  chat_completion :: "call list \<Rightarrow> message list \<Rightarrow> error + llm_message list"
  embeddings_create :: "call list \<Rightarrow> string \<Rightarrow> error + rat list"
  vector_search :: "call list \<Rightarrow> rat list \<Rightarrow> int \<Rightarrow> error + SearchResult list"
  json_loads :: "string \<Rightarrow> json option"
  lax_str :: "json \<Rightarrow> string option"
  lax_float :: "json \<Rightarrow> rat option"
  lax_bool :: "json \<Rightarrow> bool option"
  SYSTEM_PROMPT :: string
  VECTOR_SEARCH_TOP_K :: int
  CONFIDENCE_THRESHOLD :: rat

record conversation =
  messages :: "message list"
  all_matched_products :: "candidate list"

subsection \<open>Python primitives\<close>

text \<open>\<open>str.isspace\<close> on the characters a HOL \<open>char\<close> can hold (code points below 256).\<close>

definition isspace :: "char \<Rightarrow> bool" where
  "isspace c = (of_char c \<in> {9, 10, 11, 12, 13, 28, 29, 30, 31, 32, 133, 160 :: nat})"

definition strip :: "string \<Rightarrow> string" where
  "strip s = rev (dropWhile isspace (rev (dropWhile isspace s)))"

text \<open>\<open>not text or not text.strip()\<close> on a string.\<close>

definition blank :: "string \<Rightarrow> bool" where
  "blank s = (s = [] \<or> strip s = [])"

text \<open>Truth value of a JSON-decoded Python object.\<close>

fun truthy :: "json \<Rightarrow> bool" where
  "truthy JNull = False"
| "truthy (JBool b) = b"
| "truthy (JNum x) = (x \<noteq> 0)"
| "truthy (JStr s) = (s \<noteq> [])"
| "truthy (JArr xs) = (xs \<noteq> [])"
| "truthy (JObj d) = (d \<noteq> [])"

text \<open>
  \<open>round(x, ndigits)\<close>: Python rounds the exact value of the float correctly to the
  nearest multiple \<open>k / 10 ^ ndigits\<close>, ties to the even \<open>k\<close>, and returns the double
  nearest to that decimal. The model returns the decimal itself; what is proved about a
  rounded value is which \<open>k\<close> was chosen, never how far the stored double lies from another
  number.
\<close>

definition round_half_even :: "rat \<Rightarrow> int" where
  "round_half_even y =
     (let f = \<lfloor>y\<rfloor>; d = y - of_int f
      in if d < 1 / 2 then f
         else if 1 / 2 < d then f + 1
         else if even f then f else f + 1)"

definition py_round :: "rat \<Rightarrow> nat \<Rightarrow> rat" where
  "py_round x ndigits = of_int (round_half_even (x * 10 ^ ndigits)) / 10 ^ ndigits"

text \<open>\<open>s.find(c)\<close> and \<open>s.rfind(c)\<close> for a one-character needle; \<open>s[i:j]\<close> for \<open>0 \<le> i \<le> j\<close>.\<close>

fun str_find :: "string \<Rightarrow> char \<Rightarrow> int" where
  "str_find [] c = - 1"
| "str_find (x # xs) c =
     (if x = c then 0 else (let r = str_find xs c in if r < 0 then - 1 else r + 1))"

definition str_rfind :: "string \<Rightarrow> char \<Rightarrow> int" where
  "str_rfind s c =
     (let r = str_find (rev s) c in if r < 0 then - 1 else int (length s) - 1 - r)"

definition str_slice :: "string \<Rightarrow> int \<Rightarrow> int \<Rightarrow> string" where
  "str_slice s i j = take (nat (j - i)) (drop (nat i) s)"

text \<open>\<open>needle in haystack\<close> on two strings.\<close>

fun is_prefix :: "string \<Rightarrow> string \<Rightarrow> bool" where
  "is_prefix [] ys = True"
| "is_prefix (x # xs) [] = False"
| "is_prefix (x # xs) (y # ys) = (x = y \<and> is_prefix xs ys)"

fun str_contains :: "string \<Rightarrow> string \<Rightarrow> bool" where
  "str_contains [] needle = (needle = [])"
| "str_contains (y # ys) needle = (is_prefix needle (y # ys) \<or> str_contains ys needle)"

text \<open>\<open>key in obj\<close>, \<open>obj.get(key, default)\<close> and iteration, on a JSON-decoded object.\<close>

definition py_contains :: "json \<Rightarrow> string \<Rightarrow> error + bool" where
  "py_contains obj key =
     (case obj of
        JObj d \<Rightarrow> Inr (map_of d key \<noteq> None)
      | JArr xs \<Rightarrow> Inr (JStr key \<in> set xs)
      | JStr s \<Rightarrow> Inr (str_contains s key)
      | _ \<Rightarrow> Inl TypeError)"

definition py_get :: "json \<Rightarrow> string \<Rightarrow> json \<Rightarrow> error + json" where
  "py_get obj key dflt =
     (case obj of
        JObj d \<Rightarrow> Inr (case map_of d key of Some v \<Rightarrow> v | None \<Rightarrow> dflt)
      | _ \<Rightarrow> Inl AttributeError)"

definition py_iter :: "json \<Rightarrow> error + json list" where
  "py_iter v =
     (case v of
        JArr xs \<Rightarrow> Inr xs
      | JStr s \<Rightarrow> Inr (map (\<lambda>c. JStr [c]) s)
      | JObj d \<Rightarrow> Inr (map (\<lambda>kv. JStr (fst kv)) d)
      | _ \<Rightarrow> Inl TypeError)"

text \<open>A list comprehension whose element expression may raise: the first error wins.\<close>

fun comprehension :: "('a \<Rightarrow> error + 'b) \<Rightarrow> 'a list \<Rightarrow> error + 'b list" where
  "comprehension f [] = Inr []"
| "comprehension f (x # xs) =
     (case f x of
        Inl e \<Rightarrow> Inl e
      | Inr y \<Rightarrow> (case comprehension f xs of Inl e \<Rightarrow> Inl e | Inr ys \<Rightarrow> Inr (y # ys)))"

subsection \<open>Pydantic models (\<open>src/models.py\<close>)\<close>

text \<open>
  Field validation: a value of the field's own type is taken as it is; what Pydantic
  does with a value of another type (coerce it or reject it) is left to \<open>env\<close>.
  \<open>None\<close> is a rejected value.
\<close>

definition coerce_str :: "env \<Rightarrow> json \<Rightarrow> string option" where
  "coerce_str E v = (case v of JStr s \<Rightarrow> Some s | _ \<Rightarrow> lax_str E v)"

definition coerce_float :: "env \<Rightarrow> json \<Rightarrow> rat option" where
  "coerce_float E v = (case v of JNum x \<Rightarrow> Some x | _ \<Rightarrow> lax_float E v)"

definition coerce_bool :: "env \<Rightarrow> json \<Rightarrow> bool option" where
  "coerce_bool E v = (case v of JBool b \<Rightarrow> Some b | _ \<Rightarrow> lax_bool E v)"

text \<open>
  \<open>MatchedProduct(product_name=.., confidence=.., context=..)\<close>; an argument that is
  not passed is \<open>None\<close>. All three fields are required, \<open>confidence\<close> is checked against
  \<open>ge=0.0, le=1.0\<close> and then rounded by the validator \<open>round_confidence\<close>.
\<close>

definition MatchedProduct_init ::
  "env \<Rightarrow> json option \<Rightarrow> json option \<Rightarrow> json option \<Rightarrow> error + MatchedProduct" where
  "MatchedProduct_init E pn cf cx =
     (case (pn, cf, cx) of
        (Some n, Some c, Some x) \<Rightarrow>
          (case (coerce_str E n, coerce_float E c, coerce_str E x) of
             (Some n', Some c', Some x') \<Rightarrow>
               if 0 \<le> c' \<and> c' \<le> 1
               then Inr \<lparr>mp_product_name = n', mp_confidence = py_round c' 2, mp_context = x'\<rparr>
               else Inl ValidationError
           | _ \<Rightarrow> Inl ValidationError)
      | _ \<Rightarrow> Inl ValidationError)"

text \<open>\<open>MatchedProduct(**p)\<close>: \<open>p\<close> must be a mapping; keys that are no fields are ignored.\<close>

definition MatchedProduct_kwargs :: "env \<Rightarrow> json \<Rightarrow> error + MatchedProduct" where
  "MatchedProduct_kwargs E p =
     (case p of
        JObj d \<Rightarrow>
          MatchedProduct_init E (map_of d ''product_name'') (map_of d ''confidence'')
            (map_of d ''context'')
      | _ \<Rightarrow> Inl TypeError)"

text \<open>\<open>ProcessingResult(..)\<close> with the validator \<open>text_not_empty\<close> on \<open>raw_text\<close>.\<close>

definition ProcessingResult_init ::
  "env \<Rightarrow> MatchedProduct list \<Rightarrow> json \<Rightarrow> json \<Rightarrow> string \<Rightarrow> error + ProcessingResult" where
  "ProcessingResult_init E mps ca bp raw =
     (case (coerce_bool E ca, coerce_bool E bp) of
        (Some a, Some b) \<Rightarrow>
          if blank raw then Inl ValidationError
          else Inr \<lparr>matched_products = mps, competitor_advantage_mentioned = a,
                    bad_placement_mentioned = b, raw_text = raw\<rparr>
      | _ \<Rightarrow> Inl ValidationError)"

subsection \<open>Embedding and search (\<open>src/embeddings.py\<close>, \<open>_search_products_function\<close>)\<close>

text \<open>
  \<open>generate_embedding\<close> receives whatever the model put under \<open>query\<close>. A falsy value and
  a blank string raise \<open>ValueError\<close>; any other non-string has no \<open>strip\<close>.
\<close>

definition generate_embedding ::
  "env \<Rightarrow> json \<Rightarrow> call list \<Rightarrow> (error + rat list) \<times> call list" where
  "generate_embedding E text calls =
     (case text of
        JStr s \<Rightarrow>
          if blank s then (Inl ValueError, calls)
          else (embeddings_create E calls (strip s), calls @ [EmbeddingsCreate (strip s)])
      | _ \<Rightarrow> if truthy text then (Inl AttributeError, calls) else (Inl ValueError, calls))"

text \<open>The \<open>try\<close> block catches every exception and returns the empty list.\<close>

definition search_products_function ::
  "env \<Rightarrow> json \<Rightarrow> call list \<Rightarrow> result_dict list \<times> call list" where
  "search_products_function E query calls =
     (case generate_embedding E query calls of
        (Inl e, calls1) \<Rightarrow> ([], calls1)
      | (Inr query_embedding, calls1) \<Rightarrow>
          (case vector_search E calls1 query_embedding (VECTOR_SEARCH_TOP_K E) of
             Inl e \<Rightarrow> ([], calls1 @ [VectorSearch query_embedding (VECTOR_SEARCH_TOP_K E)])
           | Inr search_results \<Rightarrow>
               (map (\<lambda>result. \<lparr>product_name = sr_product_name result,
                                confidence = py_round (score result) 2\<rparr>)
                  (filter (\<lambda>result. CONFIDENCE_THRESHOLD E \<le> score result) search_results),
                calls1 @ [VectorSearch query_embedding (VECTOR_SEARCH_TOP_K E)])))"

subsection \<open>\<open>process_transcript\<close>\<close>

definition max_iterations :: nat where
  "max_iterations = 10"

text \<open>The body of \<open>for tool_call in message.tool_calls\<close>.\<close>

definition process_tool_call ::
  "env \<Rightarrow> tool_call \<Rightarrow> conversation \<Rightarrow> call list \<Rightarrow> (error + conversation) \<times> call list" where
  "process_tool_call E tool_call st calls =
     (case json_loads E (arguments tool_call) of
        None \<Rightarrow> (Inl JSONDecodeError, calls)
      | Some function_args \<Rightarrow>
          if function_name tool_call = ''search_products'' then
            (case py_get function_args ''query'' (JStr []) of
               Inl e \<Rightarrow> (Inl e, calls)
             | Inr query \<Rightarrow>
                 (case search_products_function E query calls of
                    (search_results, calls1) \<Rightarrow>
                      (let tagged = map (\<lambda>result. \<lparr>product_name = product_name result,
                                                    confidence = confidence result,
                                                    context' = query\<rparr>) search_results
                       in (Inr \<lparr>messages = messages st @
                                   [Assistant [tool_call],
                                    Tool (tc_id tool_call) (function_name tool_call) tagged],
                                 all_matched_products = all_matched_products st @ tagged\<rparr>,
                           calls1))))
          else (Inr st, calls))"

fun process_tool_calls ::
  "env \<Rightarrow> tool_call list \<Rightarrow> conversation \<Rightarrow> call list \<Rightarrow> (error + conversation) \<times> call list" where
  "process_tool_calls E [] st calls = (Inr st, calls)"
| "process_tool_calls E (tool_call # rest) st calls =
     (case process_tool_call E tool_call st calls of
        (Inl e, calls1) \<Rightarrow> (Inl e, calls1)
      | (Inr st1, calls1) \<Rightarrow> process_tool_calls E rest st1 calls1)"

text \<open>
  \<open>[MatchedProduct(product_name=p["product_name"], confidence=p["confidence"],
  context=p["context"]) for p in all_matched_products]\<close>, which occurs three times.
\<close>

definition from_accumulator :: "env \<Rightarrow> candidate list \<Rightarrow> error + MatchedProduct list" where
  "from_accumulator E acc =
     comprehension
       (\<lambda>p. MatchedProduct_init E (Some (JStr (product_name p))) (Some (JNum (confidence p)))
               (Some (context' p)))
       acc"

text \<open>The result built from the accumulator alone, with both flags \<open>False\<close>.\<close>

definition accumulator_only :: "env \<Rightarrow> string \<Rightarrow> candidate list \<Rightarrow> error + ProcessingResult" where
  "accumulator_only E text acc =
     (case from_accumulator E acc of
        Inl e \<Rightarrow> Inl e
      | Inr matched \<Rightarrow> ProcessingResult_init E matched (JBool False) (JBool False) text)"

text \<open>The first statements of the inner \<open>try\<close>: locate and parse the JSON; \<open>None\<close> is \<open>JSONDecodeError\<close>.\<close>

definition parse_final_content :: "env \<Rightarrow> string \<Rightarrow> json option" where
  "parse_final_content E final_content =
     (let json_start = str_find final_content (CHR ''{'');
          json_end = str_rfind final_content (CHR ''}'') + 1
      in if 0 \<le> json_start \<and> json_start < json_end
         then json_loads E (str_slice final_content json_start json_end)
         else json_loads E final_content)"

text \<open>The rest of the inner \<open>try\<close>, after a successful parse.\<close>

definition build_result :: "env \<Rightarrow> string \<Rightarrow> candidate list \<Rightarrow> json \<Rightarrow> error + ProcessingResult" where
  "build_result E text acc result_data =
     (case
        (if acc \<noteq> [] then from_accumulator E acc
         else
           (case py_contains result_data ''matched_products'' of
              Inl e \<Rightarrow> Inl e
            | Inr False \<Rightarrow> Inr []
            | Inr True \<Rightarrow>
                (case py_get result_data ''matched_products'' (JArr []) of
                   Inl e \<Rightarrow> Inl e
                 | Inr v \<Rightarrow>
                     (case py_iter v of
                        Inl e \<Rightarrow> Inl e
                      | Inr ps \<Rightarrow> comprehension (MatchedProduct_kwargs E) ps))))
      of
        Inl e \<Rightarrow> Inl e
      | Inr matched \<Rightarrow>
          (case py_get result_data ''competitor_advantage_mentioned'' (JBool False) of
             Inl e \<Rightarrow> Inl e
           | Inr ca \<Rightarrow>
               (case py_get result_data ''bad_placement_mentioned'' (JBool False) of
                  Inl e \<Rightarrow> Inl e
                | Inr bp \<Rightarrow> ProcessingResult_init E matched ca bp text)))"

text \<open>The \<open>else\<close> branch of \<open>if message.tool_calls\<close>: the model's message is final.\<close>

definition final_answer ::
  "env \<Rightarrow> string \<Rightarrow> candidate list \<Rightarrow> string option \<Rightarrow> error + ProcessingResult" where
  "final_answer E text acc final_content =
     (case final_content of
        None \<Rightarrow> Inl AttributeError
      | Some c \<Rightarrow>
          (case parse_final_content E c of
             None \<Rightarrow> accumulator_only E text acc
           | Some result_data \<Rightarrow> build_result E text acc result_data))"

text \<open>
  One pass of the \<open>while\<close> body: \<open>Inl\<close> is the outcome with which \<open>process_transcript\<close>
  ends (a returned result or a raised exception), \<open>Inr\<close> the conversation with which the
  loop goes on.
\<close>

definition loop_body ::
  "env \<Rightarrow> string \<Rightarrow> conversation \<Rightarrow> call list \<Rightarrow>
     ((error + ProcessingResult) \<times> call list) + (conversation \<times> call list)" where
  "loop_body E text st calls =
     (let calls1 = calls @ [ChatCompletion (messages st)]
      in case chat_completion E calls (messages st) of
           Inl e \<Rightarrow> Inl (Inl e, calls1)
         | Inr [] \<Rightarrow> Inl (Inl IndexError, calls1)
         | Inr (message # _) \<Rightarrow>
             (case tool_calls message of
                Some (tool_call # rest) \<Rightarrow>
                  (case process_tool_calls E (tool_call # rest) st calls1 of
                     (Inl e, calls2) \<Rightarrow> Inl (Inl e, calls2)
                   | (Inr st2, calls2) \<Rightarrow> Inr (st2, calls2))
              | _ \<Rightarrow> Inl (final_answer E text (all_matched_products st) (content message), calls1)))"

function process_loop ::
  "env \<Rightarrow> string \<Rightarrow> nat \<Rightarrow> conversation \<Rightarrow> call list \<Rightarrow> (error + ProcessingResult) \<times> call list" where
  "process_loop E text iteration st calls =
     (if iteration < max_iterations then
        (case loop_body E text st calls of
           Inl outcome \<Rightarrow> outcome
         | Inr (st2, calls2) \<Rightarrow> process_loop E text (iteration + 1) st2 calls2)
      else (accumulator_only E text (all_matched_products st), calls))"
  by pat_completeness auto
termination
  by (relation "measure (\<lambda>(E, text, iteration, st, calls). max_iterations - iteration)") auto

definition initial_conversation :: "env \<Rightarrow> string \<Rightarrow> conversation" where
  "initial_conversation E text =
     \<lparr>messages = [System (SYSTEM_PROMPT E),
                  User (''Analyzuj tento transkript:'' @ [CHR 0x0A, CHR 0x0A] @ text)],
      all_matched_products = []\<rparr>"

definition process_transcript ::
  "env \<Rightarrow> string \<Rightarrow> call list \<Rightarrow> (error + ProcessingResult) \<times> call list" where
  "process_transcript E text calls =
     (if blank text then (Inl ValueError, calls)
      else process_loop E text 0 (initial_conversation E text) calls)"

subsection \<open>Notions used to state the properties\<close>

text \<open>The number of model round-trips recorded in a log of remote calls.\<close>

fun is_chat_completion :: "call \<Rightarrow> bool" where
  "is_chat_completion (ChatCompletion ms) = True"
| "is_chat_completion (EmbeddingsCreate s) = False"
| "is_chat_completion (VectorSearch v k) = False"

definition round_trips :: "call list \<Rightarrow> nat" where
  "round_trips calls = length (filter is_chat_completion calls)"

text \<open>
  The conversation and the log at the head of the \<open>while\<close> loop after \<open>n\<close> passes, when each
  of these passes ended in tool calls that were all processed; \<open>None\<close> when the run ended
  before.
\<close>

fun loop_state :: "env \<Rightarrow> string \<Rightarrow> call list \<Rightarrow> nat \<Rightarrow> (conversation \<times> call list) option" where
  "loop_state E text calls 0 = Some (initial_conversation E text, calls)"
| "loop_state E text calls (Suc n) =
     (case loop_state E text calls n of
        None \<Rightarrow> None
      | Some (st, calls1) \<Rightarrow>
          (case loop_body E text st calls1 of
             Inl outcome \<Rightarrow> None
           | Inr next \<Rightarrow> Some next))"

text \<open>A matched product that carries the three entries of an accumulated candidate unchanged.\<close>

definition carries :: "MatchedProduct \<Rightarrow> candidate \<Rightarrow> bool" where
  "carries m p =
     (mp_product_name m = product_name p \<and> mp_confidence m = confidence p \<and>
      JStr (mp_context m) = context' p)"

text \<open>The bounds \<open>ge=0.0, le=1.0\<close> on every accumulated confidence.\<close>

definition confidences_in_range :: "candidate list \<Rightarrow> bool" where
  "confidences_in_range acc = list_all (\<lambda>p. 0 \<le> confidence p \<and> confidence p \<le> 1) acc"

text \<open>A message without tool calls: \<open>message.tool_calls\<close> is \<open>None\<close> or empty.\<close>

definition is_final :: "llm_message \<Rightarrow> bool" where
  "is_final message = (tool_calls message = None \<or> tool_calls message = Some [])"

text \<open>
  What holds of every candidate that the loop itself has put into the accumulator: its
  context is a string and its confidence is a value rounded to two decimals.
\<close>

definition tool_derived :: "candidate \<Rightarrow> bool" where
  "tool_derived p =
     ((case context' p of JStr q \<Rightarrow> True | _ \<Rightarrow> False) \<and>
      py_round (confidence p) 2 = confidence p)"

text \<open>
  \<open>c\<close> is the score \<open>s\<close> rounded to two decimals: there is an integer \<open>k\<close> within one half
  of \<open>100 * s\<close>, even when it is exactly one half away, and \<open>c\<close> is the hundredth \<open>k / 100\<close>
  up to the relative error \<open>10 ^ -15\<close> that storing a decimal as a double can cause. (The
  model computes with the decimal itself, so there the error is zero; the statement is
  written so that it also holds of the double that the program stores.)
\<close>

definition rounded_to_hundredths :: "rat \<Rightarrow> rat \<Rightarrow> bool" where
  "rounded_to_hundredths s c =
     (\<exists>k :: int.
        \<bar>c - of_int k / 100\<bar> \<le> \<bar>c\<bar> / 10 ^ 15 \<and>
        (\<bar>of_int k - s * 100\<bar> < 1 / 2 \<or> (\<bar>of_int k - s * 100\<bar> = 1 / 2 \<and> even k)))"

text \<open>
  The search results that the vector search returned for the calls of a stretch of the
  log, in the order of the calls; \<open>before\<close> is the log up to that stretch. (A service answers
  as a function of the log before the call, so its answers can be read off the log.)
\<close>

fun search_answers :: "env \<Rightarrow> call list \<Rightarrow> call list \<Rightarrow> SearchResult list" where
  "search_answers E before [] = []"
| "search_answers E before (c # later) =
     (case c of
        VectorSearch v k \<Rightarrow> (case vector_search E before v k of Inl e \<Rightarrow> [] | Inr rs \<Rightarrow> rs)
      | _ \<Rightarrow> []) @
     search_answers E (before @ [c]) later"



text \<open>
  A candidate (or a result dictionary) that was made from a search result: it has the
  result's name, the result passed the threshold, and its confidence is the rounded score.
\<close>

definition made_from :: "env \<Rightarrow> 'a result_dict_scheme \<Rightarrow> SearchResult \<Rightarrow> bool" where
  "made_from E p sr =
     (product_name p = sr_product_name sr \<and> CONFIDENCE_THRESHOLD E \<le> score sr \<and>
      confidence p = py_round (score sr) 2)"

text \<open>
  The log \<open>calls\<close> continues the log \<open>calls0\<close>, and every candidate of \<open>acc\<close> was made from a
  search result that the vector search returned in between.
\<close>

definition sourced :: "env \<Rightarrow> call list \<Rightarrow> candidate list \<Rightarrow> call list \<Rightarrow> bool" where
  "sourced E calls0 acc calls =
     (take (length calls0) calls = calls0 \<and>
      list_all (\<lambda>p. list_ex (made_from E p)
                       (search_answers E calls0 (drop (length calls0) calls))) acc)"

subsection \<open>Example environments\<close>

text \<open>
  A stand-in for \<open>json.loads\<close> that knows the handful of JSON texts used in the examples
  and raises on every other text.
\<close>

definition example_json_loads :: "string \<Rightarrow> json option" where
  \<open>example_json_loads =
     map_of
       [(''{"query": "Castrol Magnatec 5W-30 A5 5 litru"}'',
           JObj [(''query'', JStr ''Castrol Magnatec 5W-30 A5 5 litru'')]),
        (''{}'', JObj []),
        (''{"matched_products": [], "competitor_advantage_mentioned": true}'',
           JObj [(''matched_products'', JArr []),
                 (''competitor_advantage_mentioned'', JBool True)]),
        (''{"matched_products": [{"product_name": "X", "confidence": 1.5, "context": "x"}]}'',
           JObj [(''matched_products'',
                  JArr [JObj [(''product_name'', JStr ''X''), (''confidence'', JNum (3 / 2)),
                              (''context'', JStr ''x'')]])]),
        (''[]'', JArr []),
        (''{"matched_products": [{"product_name": "X", "confidence": 0.875, "context": "x"}], "bad_placement_mentioned": true}'',
           JObj [(''matched_products'',
                  JArr [JObj [(''product_name'', JStr ''X''), (''confidence'', JNum (7 / 8)),
                              (''context'', JStr ''x'')]]),
                 (''bad_placement_mentioned'', JBool True)])]\<close>

text \<open>
  The model answers its \<open>n\<close>-th call with the \<open>n\<close>-th message of a script, the embedding
  service always answers, and the search service returns one catalogue entry per given
  score. Ill-typed field values are rejected; top-K and threshold have their defaults.
\<close>

definition catalogue_entry :: "rat \<Rightarrow> SearchResult" where
  "catalogue_entry x =
     \<lparr>sr_product_id = ''CASTROL_1'', sr_product_name = ''CASTROL MAGNATEC 5W-30 A5 5 lt'',
      score = x\<rparr>"

definition scripted :: "llm_message list \<Rightarrow> rat list \<Rightarrow> env" where
  "scripted script scores =
     \<lparr>chat_completion =
        (\<lambda>calls ms. case drop (round_trips calls) script of
                       [] \<Rightarrow> Inl (ServiceError ''no answer'')
                     | m # rest \<Rightarrow> Inr [m]),
      embeddings_create = (\<lambda>calls s. Inr [1]),
      vector_search = (\<lambda>calls v k. Inr (map catalogue_entry scores)),
      json_loads = example_json_loads,
      lax_str = (\<lambda>v. None),
      lax_float = (\<lambda>v. None),
      lax_bool = (\<lambda>v. None),
      SYSTEM_PROMPT = ''Jsi asistent pro identifikaci produktu'',
      VECTOR_SEARCH_TOP_K = 3,
      CONFIDENCE_THRESHOLD = 7 / 10\<rparr>"

text \<open>The same environment with an embedding service that is down.\<close>

definition embedding_down :: "rat list \<Rightarrow> env" where
  "embedding_down scores =
     (scripted [] scores)\<lparr>embeddings_create := (\<lambda>calls s. Inl (ServiceError ''timeout''))\<rparr>"

definition example_transcript :: string where
  "example_transcript = ''Na polici je Castrol Magnatec.''"

definition example_query :: string where
  "example_query = ''Castrol Magnatec 5W-30 A5 5 litru''"

definition search_call :: tool_call where
  \<open>search_call =
     \<lparr>tc_id = ''call_123'', function_name = ''search_products'',
      arguments = ''{"query": "Castrol Magnatec 5W-30 A5 5 litru"}''\<rparr>\<close>

definition search_call_with :: "string \<Rightarrow> tool_call" where
  "search_call_with args =
     \<lparr>tc_id = ''call_789'', function_name = ''search_products'', arguments = args\<rparr>"

definition other_call :: "string \<Rightarrow> tool_call" where
  "other_call args = \<lparr>tc_id = ''call_456'', function_name = ''get_price'', arguments = args\<rparr>"

definition request :: "tool_call \<Rightarrow> llm_message" where
  "request tc = \<lparr>tool_calls = Some [tc], content = None\<rparr>"

definition answer :: "string \<Rightarrow> llm_message" where
  "answer c = \<lparr>tool_calls = None, content = Some c\<rparr>"

definition castrol :: "rat \<Rightarrow> MatchedProduct" where
  "castrol c =
     \<lparr>mp_product_name = ''CASTROL MAGNATEC 5W-30 A5 5 lt'', mp_confidence = c,
      mp_context = example_query\<rparr>"

section \<open>Properties\<close>

subsection \<open>The number of model round-trips\<close>

text \<open>
  The recursive equation of the loop is unfolded only where a proof asks for it.
\<close>

declare process_loop.simps [simp del]

lemma round_trips_append: "round_trips (xs @ ys) = round_trips xs + round_trips ys"
  by (simp add: round_trips_def)

lemma generate_embedding_round_trips:
  "generate_embedding E q calls = (r, calls') \<Longrightarrow> round_trips calls' = round_trips calls"
  by (auto simp: generate_embedding_def round_trips_def split: json.splits if_splits)

lemma search_products_function_round_trips:
  "search_products_function E q calls = (rs, calls') \<Longrightarrow> round_trips calls' = round_trips calls"
  by (auto simp: search_products_function_def round_trips_append round_trips_def
      split: prod.splits sum.splits dest!: generate_embedding_round_trips)

lemma process_tool_call_round_trips:
  "process_tool_call E tc st calls = (r, calls') \<Longrightarrow> round_trips calls' = round_trips calls"
  by (auto simp: process_tool_call_def Let_def
      split: option.splits if_splits sum.splits prod.splits
      dest: search_products_function_round_trips)

lemma process_tool_calls_round_trips:
  "process_tool_calls E tcs st calls = (r, calls') \<Longrightarrow> round_trips calls' = round_trips calls"
proof (induction tcs arbitrary: st calls)
  case Nil
  then show ?case by simp
next
  case (Cons tc tcs)
  then show ?case
    by (auto split: prod.splits sum.splits dest: process_tool_call_round_trips)
qed

lemma loop_body_round_trips_Inl:
  "loop_body E text st calls = Inl (out, calls') \<Longrightarrow> round_trips calls' = round_trips calls + 1"
  by (auto simp: loop_body_def Let_def round_trips_append round_trips_def
      simp del: process_tool_calls.simps split: sum.splits list.splits option.splits prod.splits
      dest!: process_tool_calls_round_trips)

lemma loop_body_round_trips_Inr:
  "loop_body E text st calls = Inr (st', calls') \<Longrightarrow> round_trips calls' = round_trips calls + 1"
  by (auto simp: loop_body_def Let_def round_trips_append round_trips_def
      simp del: process_tool_calls.simps split: sum.splits list.splits option.splits prod.splits
      dest!: process_tool_calls_round_trips)

lemma process_loop_round_trips:
  "round_trips (snd (process_loop E transcript iteration st calls))
     \<le> round_trips calls + (max_iterations - iteration)"
proof (induction E transcript iteration st calls rule: process_loop.induct)
  case (1 E transcript iteration st calls)
  show ?case
  proof (cases "iteration < max_iterations")
    case False
    then show ?thesis by (simp add: process_loop.simps)
  next
    case True
    show ?thesis
    proof (cases "loop_body E transcript st calls")
      case (Inl outcome)
      obtain out calls' where o: "outcome = (out, calls')" by (cases outcome)
      from Inl o have "round_trips calls' = round_trips calls + 1"
        by (simp add: loop_body_round_trips_Inl)
      with True Inl o show ?thesis by (simp add: process_loop.simps)
    next
      case (Inr next_state)
      obtain st2 calls2 where n: "next_state = (st2, calls2)" by (cases next_state)
      from Inr n have rt: "round_trips calls2 = round_trips calls + 1"
        by (simp add: loop_body_round_trips_Inr)
      from "1.IH" [OF True Inr n [symmetric]] 
      have "round_trips (snd (process_loop E transcript (iteration + 1) st2 calls2))
              \<le> round_trips calls2 + (max_iterations - (iteration + 1))" by simp
      with True Inr n rt show ?thesis by (simp add: process_loop.simps)
    qed
  qed
qed

text \<open>A string of whitespace only strips to the empty string.\<close>

lemma strip_all_space: "list_all isspace s \<Longrightarrow> strip s = []"
  by (auto simp: strip_def list_all_iff dest: set_dropWhileD)

subsection \<open>C3: at most ten round-trips\<close>

text \<open>
  C3. \<open>process_transcript\<close> is a total function (its loop was shown to terminate when it
  was defined), and whatever the model, the embedding service and the search service
  answer, and however many tool calls a message requests, a run adds at most ten chat
  completion calls to the log of remote calls.
\<close>

theorem process_transcript_at_most_ten_round_trips:
  "\<exists>outcome calls'. process_transcript E text calls = (outcome, calls') \<and>
     round_trips calls' \<le> round_trips calls + 10"
proof -
  have "round_trips (snd (process_transcript E text calls)) \<le> round_trips calls + 10"
    using process_loop_round_trips [of E "text" 0 "initial_conversation E text" calls]
    by (simp add: process_transcript_def max_iterations_def)
  then show ?thesis by (cases "process_transcript E text calls") auto
qed

subsection \<open>C6: blank input\<close>

text \<open>
  C6. For a transcript that is empty or consists of whitespace only, \<open>process_transcript\<close>
  raises \<open>ValueError\<close> and the log of remote calls is unchanged: no model, embedding or
  search call was made.
\<close>

theorem process_transcript_blank:
  "list_all isspace text \<Longrightarrow> process_transcript E text calls = (Inl ValueError, calls)"
  by (simp add: process_transcript_def blank_def strip_all_space)

theorem process_transcript_blank_witness:
  "list_all isspace ''   '' \<and>
   process_transcript (scripted [] []) ''   '' [] = (Inl ValueError, [])"
proof -
  have h: "list_all isspace ''   ''" by code_simp
  from process_transcript_blank [OF h] h show ?thesis by simp
qed

subsection \<open>Rounding\<close>

text \<open>
  Rounding to two decimals is idempotent. \<open>round_half_even y\<close> is the integer nearest to
  \<open>y\<close>, the even one at a tie, and the only such integer.
\<close>

lemma round_half_even_of_int: "round_half_even (of_int k) = k"
  by (simp add: round_half_even_def)


lemma py_round_idem: "py_round (py_round x 2) 2 = py_round x 2"
  by (simp add: py_round_def round_half_even_of_int)


lemma round_half_even_nearest:
  "\<bar>of_int (round_half_even y) - y\<bar> < 1 / 2 \<or>
   (\<bar>of_int (round_half_even y) - y\<bar> = 1 / 2 \<and> even (round_half_even y))"
proof -
  have "of_int \<lfloor>y\<rfloor> \<le> y" "y < of_int \<lfloor>y\<rfloor> + 1" by linarith+
  then show ?thesis
    by (auto simp: round_half_even_def Let_def)
qed

lemma round_half_even_unique:
  assumes "\<bar>of_int k - y\<bar> < 1 / 2 \<or> (\<bar>of_int k - y\<bar> = 1 / 2 \<and> even k)"
  shows "round_half_even y = k"
proof -
  define f where "f = \<lfloor>y\<rfloor>"
  have b: "of_int f \<le> y" "y < of_int f + 1"
    unfolding f_def by linarith+
  have kf: "k = f \<or> k = f + 1"
  proof -
    from assms have "\<bar>of_int k - y\<bar> \<le> 1 / 2" by auto
    with b have "of_int f - 1 < (of_int k :: rat)" "(of_int k :: rat) < of_int f + 2"
      by linarith+
    then have "f - 1 < k" "k < f + 2"
      by (metis of_int_less_iff of_int_diff of_int_1,
          metis of_int_less_iff of_int_add of_int_numeral)
    then show ?thesis by linarith
  qed
  show ?thesis
  proof (cases "k = f")
    case True
    with assms b have "y - of_int f < 1 / 2 \<or> (y - of_int f = 1 / 2 \<and> even f)"
      by auto
    then show ?thesis
      using True by (auto simp: round_half_even_def Let_def f_def [symmetric])
  next
    case False
    with kf have k1: "k = f + 1" by simp
    with assms b have "1 / 2 < y - of_int f \<or> (y - of_int f = 1 / 2 \<and> odd f)"
      by auto
    then show ?thesis
      using k1 by (auto simp: round_half_even_def Let_def f_def [symmetric])
  qed
qed

lemma py_round_rounded_to_hundredths: "rounded_to_hundredths s (py_round s 2)"
proof -
  have "py_round s 2 = of_int (round_half_even (s * 100)) / 100"
    by (simp add: py_round_def)
  with round_half_even_nearest [of "s * 100"] show ?thesis
    unfolding rounded_to_hundredths_def
    by (intro exI [of _ "round_half_even (s * 100)"]) simp
qed

subsection \<open>One tool call\<close>

lemma generate_embedding_Inr:
  "generate_embedding E query calls = (Inr v, calls1) \<Longrightarrow> \<exists>s. query = JStr s \<and> \<not> blank s"
  by (auto simp: generate_embedding_def split: json.splits if_splits)

lemma search_products_function_embedding_fails:
  "generate_embedding E query calls = (Inl e, calls1) \<Longrightarrow>
   search_products_function E query calls = ([], calls1)"
  by (simp add: search_products_function_def)

lemma search_products_function_search_fails:
  "generate_embedding E query calls = (Inr v, calls1) \<Longrightarrow>
   vector_search E calls1 v (VECTOR_SEARCH_TOP_K E) = Inl e \<Longrightarrow>
   search_products_function E query calls =
     ([], calls1 @ [VectorSearch v (VECTOR_SEARCH_TOP_K E)])"
  by (simp add: search_products_function_def)

lemma search_products_function_success:
  "generate_embedding E query calls = (Inr v, calls1) \<Longrightarrow>
   vector_search E calls1 v (VECTOR_SEARCH_TOP_K E) = Inr batch \<Longrightarrow>
   search_products_function E query calls =
     (map (\<lambda>r. \<lparr>product_name = sr_product_name r, confidence = py_round (score r) 2\<rparr>)
        (filter (\<lambda>r. CONFIDENCE_THRESHOLD E \<le> score r) batch),
      calls1 @ [VectorSearch v (VECTOR_SEARCH_TOP_K E)])"
  by (simp add: search_products_function_def)

lemma search_products_function_empty_query:
  "search_products_function E (JStr []) calls = ([], calls)"
  by (simp add: search_products_function_def generate_embedding_def blank_def)

lemma process_tool_call_search:
  "json_loads E (arguments tc) = Some args \<Longrightarrow>
   function_name tc = ''search_products'' \<Longrightarrow>
   py_get args ''query'' (JStr []) = Inr query \<Longrightarrow>
   search_products_function E query calls = (rs, calls') \<Longrightarrow>
   process_tool_call E tc st calls =
     (Inr \<lparr>messages = messages st @
              [Assistant [tc],
               Tool (tc_id tc) (function_name tc)
                 (map (\<lambda>r. \<lparr>product_name = product_name r, confidence = confidence r,
                             context' = query\<rparr>) rs)],
            all_matched_products = all_matched_products st @
              map (\<lambda>r. \<lparr>product_name = product_name r, confidence = confidence r,
                          context' = query\<rparr>) rs\<rparr>,
      calls')"
  by (simp add: process_tool_call_def Let_def)

lemma process_tool_call_unparsable:
  "json_loads E (arguments tc) = None \<Longrightarrow>
   process_tool_call E tc st calls = (Inl JSONDecodeError, calls)"
  by (simp add: process_tool_call_def)

lemma process_tool_call_not_object:
  "function_name tc = ''search_products'' \<Longrightarrow> json_loads E (arguments tc) = Some args \<Longrightarrow>
   \<forall>d. args \<noteq> JObj d \<Longrightarrow>
   process_tool_call E tc st calls = (Inl AttributeError, calls)"
  by (cases args) (simp_all add: process_tool_call_def py_get_def)

text \<open>
  C2. When a \<open>search_products\<close> invocation gets a batch from the vector search, the
  accumulator grows by exactly the batch's entries whose score is at or above the
  threshold, in the batch's order: each with its score rounded to two decimals as
  confidence and the query as context. Entries below the threshold leave no trace, and
  whether an entry is kept depends on its own score only. The confidence of an appended
  candidate is (up to the representation error of a double) a hundredth \<open>k / 100\<close> whose
  \<open>k\<close> is the integer nearest to a hundred times the score, the even one at a tie. The
  query is a string.
\<close>

theorem search_results_filtered_by_threshold:
  assumes "json_loads E (arguments tc) = Some args"
    and "function_name tc = ''search_products''"
    and "py_get args ''query'' (JStr []) = Inr query"
    and "generate_embedding E query calls = (Inr v, calls1)"
    and "vector_search E calls1 v (VECTOR_SEARCH_TOP_K E) = Inr batch"
  shows "\<exists>st' calls'.
           process_tool_call E tc st calls = (Inr st', calls') \<and>
           all_matched_products st' =
             all_matched_products st @
             map (\<lambda>r. \<lparr>product_name = sr_product_name r, confidence = py_round (score r) 2,
                         context' = query\<rparr>)
               (filter (\<lambda>r. CONFIDENCE_THRESHOLD E \<le> score r) batch) \<and>
           list_all2
             (\<lambda>p r. product_name p = sr_product_name r \<and>
                    rounded_to_hundredths (score r) (confidence p) \<and> context' p = query)
             (drop (length (all_matched_products st)) (all_matched_products st'))
             (filter (\<lambda>r. CONFIDENCE_THRESHOLD E \<le> score r) batch) \<and>
           (\<exists>q. query = JStr q)"
proof -
  note s = search_products_function_success [OF assms(4) assms(5)]
  have q: "\<exists>q. query = JStr q"
    using generate_embedding_Inr [OF assms(4)] by blast
  have l: "list_all2
             (\<lambda>p r. product_name p = sr_product_name r \<and>
                    rounded_to_hundredths (score r) (confidence p) \<and> context' p = query)
             (map (\<lambda>r. \<lparr>product_name = sr_product_name r, confidence = py_round (score r) 2,
                         context' = query\<rparr>) xs) xs" for xs
    by (simp add: list_all2_map1 list.rel_refl py_round_rounded_to_hundredths)
  from q l show ?thesis
    by (simp add: process_tool_call_search [OF assms(1) assms(2) assms(3) s] comp_def)
qed

theorem search_results_filtered_by_threshold_witness:
  "\<exists>st' calls'.
     process_tool_call (scripted [] [107 / 125, 1 / 2, 7 / 8]) search_call
       (initial_conversation (scripted [] [107 / 125, 1 / 2, 7 / 8]) example_transcript) [] =
       (Inr st', calls') \<and>
     all_matched_products st' =
       [\<lparr>product_name = ''CASTROL MAGNATEC 5W-30 A5 5 lt'', confidence = 43 / 50,
         context' = JStr example_query\<rparr>,
        \<lparr>product_name = ''CASTROL MAGNATEC 5W-30 A5 5 lt'', confidence = 22 / 25,
         context' = JStr example_query\<rparr>]"
proof -
  let ?E = "scripted [] [107 / 125, 1 / 2, 7 / 8]"
  have h1: "json_loads ?E (arguments search_call) = Some (JObj [(''query'', JStr example_query)])"
    by code_simp
  have h2: "function_name search_call = ''search_products''"
    by code_simp
  have h3: "py_get (JObj [(''query'', JStr example_query)]) ''query'' (JStr []) =
              Inr (JStr example_query)"
    by code_simp
  have h4: "generate_embedding ?E (JStr example_query) [] =
              (Inr [1], [EmbeddingsCreate example_query])"
    by code_simp
  have h5: "vector_search ?E [EmbeddingsCreate example_query] [1] (VECTOR_SEARCH_TOP_K ?E) =
              Inr [catalogue_entry (107 / 125), catalogue_entry (1 / 2), catalogue_entry (7 / 8)]"
    by code_simp
  have v: "all_matched_products (initial_conversation ?E example_transcript) @
           map (\<lambda>r. \<lparr>product_name = sr_product_name r, confidence = py_round (score r) 2,
                      context' = JStr example_query\<rparr>)
             (filter (\<lambda>r. CONFIDENCE_THRESHOLD ?E \<le> score r)
                [catalogue_entry (107 / 125), catalogue_entry (1 / 2), catalogue_entry (7 / 8)]) =
           [\<lparr>product_name = ''CASTROL MAGNATEC 5W-30 A5 5 lt'', confidence = 43 / 50,
             context' = JStr example_query\<rparr>,
            \<lparr>product_name = ''CASTROL MAGNATEC 5W-30 A5 5 lt'', confidence = 22 / 25,
             context' = JStr example_query\<rparr>]"
    by code_simp
  from search_results_filtered_by_threshold
    [OF h1 h2 h3 h4 h5, of "initial_conversation ?E example_transcript"]
  show ?thesis unfolding v by blast
qed

text \<open>
  C4 (as amended). A \<open>search_products\<close> invocation whose arguments are a JSON object never
  raises, whatever the embedding and search services do: it always yields the next
  conversation. When the embedding generator fails (an error of the service, or its own
  \<open>ValueError\<close> on a blank query) or the vector search fails, the accumulator is unchanged.
  A missing \<open>query\<close> is the empty string, and the empty string gives no candidates and not
  even a remote call. (By the two lemmas above, arguments that are no JSON raise
  \<open>JSONDecodeError\<close> and arguments that are JSON but no object raise \<open>AttributeError\<close>.)
\<close>

theorem search_failure_yields_no_candidates:
  assumes "json_loads E (arguments tc) = Some (JObj d)"
    and "function_name tc = ''search_products''"
    and "query = (case map_of d ''query'' of Some v \<Rightarrow> v | None \<Rightarrow> JStr [])"
  shows "\<exists>st' calls'.
           process_tool_call E tc st calls = (Inr st', calls') \<and>
           ((\<exists>e calls1. generate_embedding E query calls = (Inl e, calls1)) \<longrightarrow>
              all_matched_products st' = all_matched_products st) \<and>
           ((\<exists>v calls1 e. generate_embedding E query calls = (Inr v, calls1) \<and>
                vector_search E calls1 v (VECTOR_SEARCH_TOP_K E) = Inl e) \<longrightarrow>
              all_matched_products st' = all_matched_products st) \<and>
           (query = JStr [] \<longrightarrow>
              all_matched_products st' = all_matched_products st \<and> calls' = calls)"
proof -
  have g: "py_get (JObj d) ''query'' (JStr []) = Inr query"
    by (simp add: py_get_def assms(3))
  obtain rs calls2 where s: "search_products_function E query calls = (rs, calls2)"
    by (cases "search_products_function E query calls")
  note p = process_tool_call_search [OF assms(1) assms(2) g s]
  have a: "(\<exists>e calls1. generate_embedding E query calls = (Inl e, calls1)) \<longrightarrow> rs = []"
    using s by (auto simp: search_products_function_embedding_fails)
  have b: "(\<exists>v calls1 e. generate_embedding E query calls = (Inr v, calls1) \<and>
             vector_search E calls1 v (VECTOR_SEARCH_TOP_K E) = Inl e) \<longrightarrow> rs = []"
    using s by (auto simp: search_products_function_search_fails)
  have c: "query = JStr [] \<longrightarrow> rs = [] \<and> calls2 = calls"
    using s by (auto simp: search_products_function_empty_query)
  from a b c show ?thesis
    by (simp add: p)
qed

theorem search_failure_yields_no_candidates_witness:
  "generate_embedding (embedding_down [23 / 25]) (JStr example_query) [] =
     (Inl (ServiceError ''timeout''), [EmbeddingsCreate example_query]) \<and>
   (\<exists>st' calls'.
      process_tool_call (embedding_down [23 / 25]) search_call
        (initial_conversation (embedding_down [23 / 25]) example_transcript) [] =
        (Inr st', calls') \<and>
      all_matched_products st' = [])"
proof -
  let ?E = "embedding_down [23 / 25]"
  have h1: "json_loads ?E (arguments search_call) = Some (JObj [(''query'', JStr example_query)])"
    by code_simp
  have h2: "function_name search_call = ''search_products''"
    by code_simp
  have h3: "JStr example_query =
              (case map_of [(''query'', JStr example_query)] ''query'' of
                 Some v \<Rightarrow> v | None \<Rightarrow> JStr [])"
    by simp
  have g: "generate_embedding ?E (JStr example_query) [] =
             (Inl (ServiceError ''timeout''), [EmbeddingsCreate example_query])"
    by code_simp
  have a: "all_matched_products (initial_conversation ?E example_transcript) = []"
    by (simp add: initial_conversation_def)
  from g have "\<exists>e calls1. generate_embedding ?E (JStr example_query) [] = (Inl e, calls1)"
    by blast
  with search_failure_yields_no_candidates [OF h1 h2 h3, of "initial_conversation ?E example_transcript" "[]"] a g
  show ?thesis by auto
qed

text \<open>
  The claim as it was stated, for every invocation of \<open>search_products\<close>, fails:
  \<open>json.loads\<close> and \<open>function_args.get\<close> run outside the \<open>try\<close> of the search helper.
  Arguments \<open>[]\<close> end the run with \<open>AttributeError\<close>, arguments that are no JSON with
  \<open>JSONDecodeError\<close>.
\<close>

theorem search_call_bad_arguments_raise:
  "function_name (search_call_with ''[]'') = ''search_products'' \<and>
   fst (process_transcript (scripted [request (search_call_with ''[]''), answer ''{}''] [23 / 25])
          example_transcript []) = Inl AttributeError \<and>
   fst (process_transcript
          (scripted [request (search_call_with ''Castrol''), answer ''{}''] [23 / 25])
          example_transcript []) = Inl JSONDecodeError"
proof -
  have a: "function_name (search_call_with ''[]'') = ''search_products''"
    by code_simp
  have b: "fst (process_transcript
                  (scripted [request (search_call_with ''[]''), answer ''{}''] [23 / 25])
                  example_transcript []) = Inl AttributeError"
    by code_simp
  have c: "fst (process_transcript
                  (scripted [request (search_call_with ''Castrol''), answer ''{}''] [23 / 25])
                  example_transcript []) = Inl JSONDecodeError"
    by code_simp
  from a b c show ?thesis by blast
qed

text \<open>
  C10 (as amended). A tool invocation whose function name is not \<open>search_products\<close> and
  whose arguments parse as JSON changes neither the conversation nor the accumulator nor
  the log of remote calls; the remaining invocations of the message are processed from the
  same state, and a message that consists of this invocation alone makes the loop go on
  with the conversation it had.
\<close>

theorem unknown_function_is_skipped:
  assumes "function_name tc \<noteq> ''search_products''"
    and "json_loads E (arguments tc) = Some args"
  shows "process_tool_call E tc st calls = (Inr st, calls) \<and>
         process_tool_calls E (tc # rest) st calls = process_tool_calls E rest st calls \<and>
         (chat_completion E calls (messages st) = Inr (message # others) \<longrightarrow>
          tool_calls message = Some [tc] \<longrightarrow>
          loop_body E transcript st calls = Inr (st, calls @ [ChatCompletion (messages st)]))"
proof -
  have p: "process_tool_call E tc st' calls' = (Inr st', calls')" for st' calls'
    using assms by (simp add: process_tool_call_def)
  then show ?thesis
    by (simp add: loop_body_def Let_def)
qed

theorem unknown_function_is_skipped_witness:
  "process_tool_call (scripted [request (other_call ''{}''), answer ''{}''] []) (other_call ''{}'')
     (initial_conversation (scripted [request (other_call ''{}''), answer ''{}''] [])
        example_transcript) [] =
     (Inr (initial_conversation (scripted [request (other_call ''{}''), answer ''{}''] [])
             example_transcript), []) \<and>
   loop_body (scripted [request (other_call ''{}''), answer ''{}''] []) example_transcript
     (initial_conversation (scripted [request (other_call ''{}''), answer ''{}''] [])
        example_transcript) [] =
     Inr (initial_conversation (scripted [request (other_call ''{}''), answer ''{}''] [])
            example_transcript,
          [ChatCompletion
             (messages (initial_conversation
                (scripted [request (other_call ''{}''), answer ''{}''] []) example_transcript))])"
proof -
  let ?E = "scripted [request (other_call ''{}''), answer ''{}''] []"
  let ?st = "initial_conversation ?E example_transcript"
  have h1: "function_name (other_call ''{}'') \<noteq> ''search_products''"
    by code_simp
  have h2: "json_loads ?E (arguments (other_call ''{}'')) = Some (JObj [])"
    by code_simp
  have h3: "chat_completion ?E [] (messages ?st) = Inr (request (other_call ''{}'') # [])"
    by code_simp
  have h4: "tool_calls (request (other_call ''{}'')) = Some [other_call ''{}'']"
    by code_simp
  from unknown_function_is_skipped [OF h1 h2, of ?st "[]" "[]" "request (other_call ''{}'')" "[]" example_transcript] h3 h4
  show ?thesis by simp
qed

text \<open>
  The claim as it was stated fails when the arguments of such an invocation are not JSON:
  \<open>json.loads\<close> is applied before the function name is looked at, and its error ends the
  run after the first round-trip.
\<close>

theorem unknown_function_bad_arguments_raise:
  "function_name (other_call ''Castrol'') \<noteq> ''search_products'' \<and>
   fst (process_transcript (scripted [request (other_call ''Castrol''), answer ''{}''] [])
          example_transcript []) = Inl JSONDecodeError"
proof -
  have a: "function_name (other_call ''Castrol'') \<noteq> ''search_products''"
    by code_simp
  have b: "fst (process_transcript (scripted [request (other_call ''Castrol''), answer ''{}''] [])
          example_transcript []) = Inl JSONDecodeError"
    by code_simp
  from a b show ?thesis by simp
qed

subsection \<open>Constructing a matched product\<close>

lemma MatchedProduct_init_accumulated:
  "MatchedProduct_init E (Some (JStr n)) (Some (JNum c)) (Some (JStr q)) =
     (if 0 \<le> c \<and> c \<le> 1
      then Inr \<lparr>mp_product_name = n, mp_confidence = py_round c 2, mp_context = q\<rparr>
      else Inl ValidationError)"
  by (simp add: MatchedProduct_init_def coerce_str_def coerce_float_def)

subsection \<open>The states of the loop\<close>

text \<open>A run goes through the states that \<open>loop_state\<close> lists.\<close>

lemma process_loop_from_loop_state:
  "loop_state E transcript calls n = Some (st, calls') \<Longrightarrow> n \<le> max_iterations \<Longrightarrow>
   process_loop E transcript 0 (initial_conversation E transcript) calls =
   process_loop E transcript n st calls'"
proof (induction n arbitrary: st calls')
  case 0
  then show ?case by simp
next
  case (Suc n)
  from Suc.prems(1) obtain st1 calls1 where
    s: "loop_state E transcript calls n = Some (st1, calls1)" and
    b: "loop_body E transcript st1 calls1 = Inr (st, calls')"
    by (auto split: option.splits sum.splits)
  from Suc.prems(2) have n: "n < max_iterations" "n \<le> max_iterations" by simp_all
  have "process_loop E transcript n st1 calls1 = process_loop E transcript (Suc n) st calls'"
    using n(1) b by (subst process_loop.simps) simp
  with Suc.IH [OF s n(2)] show ?case by simp
qed

lemma search_products_function_results:
  assumes "search_products_function E query calls = (rs, calls')" and "r \<in> set rs"
  shows "(\<exists>q. query = JStr q) \<and> py_round (confidence r) 2 = confidence r"
proof (cases "generate_embedding E query calls")
  case (Pair res calls1)
  show ?thesis
  proof (cases res)
    case (Inl e)
    with Pair assms show ?thesis
      by (simp add: search_products_function_embedding_fails)
  next
    case (Inr v)
    with Pair have q: "\<exists>q. query = JStr q"
      using generate_embedding_Inr by blast
    from Inr Pair assms have "py_round (confidence r) 2 = confidence r"
      by (auto simp: search_products_function_def py_round_idem split: sum.splits)
    with q show ?thesis by simp
  qed
qed

lemma process_tool_call_tool_derived:
  assumes "process_tool_call E tc st calls = (Inr st', calls')"
    and "list_all tool_derived (all_matched_products st)"
  shows "list_all tool_derived (all_matched_products st')"
proof (cases "json_loads E (arguments tc)")
  case None
  with assms show ?thesis by (simp add: process_tool_call_def)
next
  case (Some args)
  show ?thesis
  proof (cases "function_name tc = ''search_products''")
    case False
    with Some assms show ?thesis by (simp add: process_tool_call_def)
  next
    case True
    show ?thesis
    proof (cases "py_get args ''query'' (JStr [])")
      case (Inl e)
      with Some True assms show ?thesis by (simp add: process_tool_call_def)
    next
      case (Inr query)
      obtain rs calls2 where s: "search_products_function E query calls = (rs, calls2)"
        by (cases "search_products_function E query calls")
      have "tool_derived \<lparr>product_name = product_name r, confidence = confidence r,
                            context' = query\<rparr>" if "r \<in> set rs" for r
        using search_products_function_results [OF s that]
        by (auto simp: tool_derived_def)
      then have "list_all tool_derived
                   (map (\<lambda>r. \<lparr>product_name = product_name r, confidence = confidence r,
                               context' = query\<rparr>) rs)"
        by (simp add: list_all_iff)
      with assms show ?thesis
        by (auto simp: process_tool_call_search [OF Some True Inr s])
    qed
  qed
qed

lemma process_tool_calls_tool_derived:
  "process_tool_calls E tcs st calls = (Inr st', calls') \<Longrightarrow>
   list_all tool_derived (all_matched_products st) \<Longrightarrow>
   list_all tool_derived (all_matched_products st')"
proof (induction tcs arbitrary: st calls)
  case Nil
  then show ?case by simp
next
  case (Cons tc tcs)
  from Cons.prems(1) obtain st1 calls1 where
    a: "process_tool_call E tc st calls = (Inr st1, calls1)" and
    b: "process_tool_calls E tcs st1 calls1 = (Inr st', calls')"
    by (auto split: prod.splits sum.splits)
  from Cons.IH [OF b process_tool_call_tool_derived [OF a Cons.prems(2)]]
  show ?case .
qed

lemma loop_body_tool_derived:
  "loop_body E transcript st calls = Inr (st', calls') \<Longrightarrow>
   list_all tool_derived (all_matched_products st) \<Longrightarrow>
   list_all tool_derived (all_matched_products st')"
  by (auto simp: loop_body_def Let_def simp del: process_tool_calls.simps
      split: sum.splits list.splits option.splits prod.splits
      dest: process_tool_calls_tool_derived)

lemma loop_state_tool_derived:
  "loop_state E transcript calls n = Some (st, calls') \<Longrightarrow>
   list_all tool_derived (all_matched_products st)"
proof (induction n arbitrary: st calls')
  case 0
  then show ?case by (auto simp: initial_conversation_def)
next
  case (Suc n)
  from Suc.prems obtain st1 calls1 where
    s: "loop_state E transcript calls n = Some (st1, calls1)" and
    b: "loop_body E transcript st1 calls1 = Inr (st, calls')"
    by (auto split: option.splits sum.splits)
  from loop_body_tool_derived [OF b Suc.IH [OF s]] show ?case .
qed

lemma MatchedProduct_init_tool_derived:
  "tool_derived p \<Longrightarrow>
   MatchedProduct_init E (Some (JStr (product_name p))) (Some (JNum (confidence p)))
     (Some (context' p)) =
   (if 0 \<le> confidence p \<and> confidence p \<le> 1
    then Inr \<lparr>mp_product_name = product_name p, mp_confidence = confidence p,
              mp_context = (case context' p of JStr q \<Rightarrow> q)\<rparr>
    else Inl ValidationError)"
  by (auto simp: tool_derived_def MatchedProduct_init_accumulated split: json.splits)

lemma from_accumulator_carries:
  "list_all tool_derived acc \<Longrightarrow> from_accumulator E acc = Inr ms \<Longrightarrow>
   list_all2 carries ms acc"
proof (induction acc arbitrary: ms)
  case Nil
  then show ?case by (simp add: from_accumulator_def)
next
  case (Cons p acc)
  from Cons.prems(1) have t: "tool_derived p" "list_all tool_derived acc" by simp_all
  from Cons.prems(2) obtain m ms' where
    m: "MatchedProduct_init E (Some (JStr (product_name p))) (Some (JNum (confidence p)))
          (Some (context' p)) = Inr m" and
    r: "from_accumulator E acc = Inr ms'" and ms: "ms = m # ms'"
    by (auto simp: from_accumulator_def split: sum.splits)
  from m t(1) have "carries m p"
    by (auto simp: MatchedProduct_init_tool_derived carries_def tool_derived_def
        split: if_splits json.splits)
  with Cons.IH [OF t(2) r] ms show ?case by simp
qed

lemma from_accumulator_in_range:
  "list_all tool_derived acc \<Longrightarrow> confidences_in_range acc \<Longrightarrow>
   \<exists>ms. from_accumulator E acc = Inr ms"
proof (induction acc)
  case Nil
  then show ?case by (simp add: from_accumulator_def)
next
  case (Cons p acc)
  then show ?case
    by (auto simp: from_accumulator_def confidences_in_range_def
        MatchedProduct_init_tool_derived)
qed

lemma from_accumulator_out_of_range:
  "list_all tool_derived acc \<Longrightarrow> \<not> confidences_in_range acc \<Longrightarrow>
   from_accumulator E acc = Inl ValidationError"
proof (induction acc)
  case Nil
  then show ?case by (simp add: confidences_in_range_def)
next
  case (Cons p acc)
  then show ?case
    by (auto simp: from_accumulator_def confidences_in_range_def
        MatchedProduct_init_tool_derived split: sum.splits)
qed

lemma accumulator_only_Inr:
  "\<not> blank transcript \<Longrightarrow> from_accumulator E acc = Inr ms \<Longrightarrow>
   accumulator_only E transcript acc =
     Inr \<lparr>matched_products = ms, competitor_advantage_mentioned = False,
          bad_placement_mentioned = False, raw_text = transcript\<rparr>"
  by (simp add: accumulator_only_def ProcessingResult_init_def coerce_bool_def)

lemma accumulator_only_Inl:
  "from_accumulator E acc = Inl e \<Longrightarrow> accumulator_only E transcript acc = Inl e"
  by (simp add: accumulator_only_def)

lemma loop_body_final:
  "chat_completion E calls (messages st) = Inr (message # others) \<Longrightarrow> is_final message \<Longrightarrow>
   loop_body E transcript st calls =
     Inl (final_answer E transcript (all_matched_products st) (content message),
          calls @ [ChatCompletion (messages st)])"
  by (auto simp: loop_body_def Let_def is_final_def)

lemma process_transcript_final:
  assumes "\<not> blank transcript"
    and "loop_state E transcript calls n = Some (st, calls')"
    and "n < max_iterations"
    and "chat_completion E calls' (messages st) = Inr (message # others)"
    and "is_final message"
  shows "process_transcript E transcript calls =
           (final_answer E transcript (all_matched_products st) (content message),
            calls' @ [ChatCompletion (messages st)])"
proof -
  from assms(3) have "n \<le> max_iterations" by simp
  from process_loop_from_loop_state [OF assms(2) this] assms(1)
  have "process_transcript E transcript calls = process_loop E transcript n st calls'"
    by (simp add: process_transcript_def)
  also have "\<dots> = (final_answer E transcript (all_matched_products st) (content message),
            calls' @ [ChatCompletion (messages st)])"
    using assms(3) loop_body_final [OF assms(4) assms(5)]
    by (subst process_loop.simps) simp
  finally show ?thesis .
qed

lemma process_transcript_cap:
  assumes "\<not> blank transcript"
    and "loop_state E transcript calls max_iterations = Some (st, calls')"
  shows "process_transcript E transcript calls =
           (accumulator_only E transcript (all_matched_products st), calls')"
proof -
  from process_loop_from_loop_state [OF assms(2)] assms(1)
  have "process_transcript E transcript calls =
          process_loop E transcript max_iterations st calls'"
    by (simp add: process_transcript_def)
  then show ?thesis
    by (simp add: process_loop.simps [of _ _ max_iterations])
qed

lemma loop_state_the:
  "loop_state E transcript calls n \<noteq> None \<Longrightarrow>
   loop_state E transcript calls n =
     Some (fst (the (loop_state E transcript calls n)), snd (the (loop_state E transcript calls n)))"
  by auto

lemma fst_outcome:
  "fst (process_transcript E transcript calls) = x \<Longrightarrow>
   process_transcript E transcript calls = (x, snd (process_transcript E transcript calls))"
  by (cases "process_transcript E transcript calls") simp

lemma search_answers_append:
  "search_answers E before (xs @ ys) =
   search_answers E before xs @ search_answers E (before @ xs) ys"
  by (induction xs arbitrary: before) simp_all


text \<open>
  Every accumulated candidate was made from a search result returned since the run
  began, and the accumulator is the concatenation of the tool results of the conversation.
\<close>

lemma generate_embedding_log:
  "generate_embedding E q calls = (res, calls1) \<Longrightarrow>
   \<exists>ext. calls1 = calls @ ext \<and> (\<forall>b. search_answers E b ext = [])"
  by (auto simp: generate_embedding_def split: json.splits if_splits)

lemma search_products_function_sourced:
  assumes "search_products_function E q calls = (rs, calls')"
  shows "\<exists>ext. calls' = calls @ ext \<and>
           list_all (\<lambda>r. list_ex (made_from E r) (search_answers E calls ext)) rs"
proof (cases "generate_embedding E q calls")
  case (Pair res calls1)
  from generate_embedding_log [OF Pair] obtain ext1 where
    e: "calls1 = calls @ ext1" "\<And>b. search_answers E b ext1 = []" by blast
  show ?thesis
  proof (cases res)
    case (Inl err)
    from search_products_function_embedding_fails [OF Pair [unfolded Inl]] assms
    have "rs = []" "calls' = calls1" by simp_all
    with e(1) show ?thesis by simp
  next
    case (Inr v)
    note g = Pair [unfolded Inr]
    show ?thesis
    proof (cases "vector_search E calls1 v (VECTOR_SEARCH_TOP_K E)")
      case (Inl err)
      from search_products_function_search_fails [OF g Inl] assms e(1)
      show ?thesis by simp
    next
      case (Inr batch)
      have a: "search_answers E calls (ext1 @ [VectorSearch v (VECTOR_SEARCH_TOP_K E)]) = batch"
        using e Inr by (simp add: search_answers_append)
      from search_products_function_success [OF g Inr] assms
      have rs: "rs = map (\<lambda>r. \<lparr>product_name = sr_product_name r,
                               confidence = py_round (score r) 2\<rparr>)
                      (filter (\<lambda>r. CONFIDENCE_THRESHOLD E \<le> score r) batch)"
        and c: "calls' = calls @ (ext1 @ [VectorSearch v (VECTOR_SEARCH_TOP_K E)])"
        using e(1) by simp_all
      have "list_all (\<lambda>r. list_ex (made_from E r) batch) rs"
        unfolding rs by (auto simp: list_all_iff list_ex_iff made_from_def)
      with a c show ?thesis by metis
    qed
  qed
qed

lemma sourced_extend:
  assumes "sourced E calls0 acc calls"
    and "list_all (\<lambda>p. list_ex (made_from E p) (search_answers E calls ext)) new"
  shows "sourced E calls0 (acc @ new) (calls @ ext)"
proof -
  from assms(1) have t: "take (length calls0) calls = calls0"
    by (simp add: sourced_def)
  then obtain ext0 where c: "calls = calls0 @ ext0"
    by (metis append_take_drop_id)
  have s: "search_answers E calls0 (ext0 @ ext) =
           search_answers E calls0 ext0 @ search_answers E calls ext"
    by (simp add: search_answers_append c)
  from assms show ?thesis
    by (auto simp: sourced_def c s list_all_iff list_ex_iff)
qed

lemma sourced_log:
  "sourced E calls0 acc calls \<Longrightarrow> \<forall>b. search_answers E b ext = [] \<Longrightarrow>
   sourced E calls0 acc (calls @ ext)"
  using sourced_extend [of E calls0 acc calls ext "[]"] by simp

lemma process_tool_call_sourced:
  assumes "process_tool_call E tc st calls = (Inr st', calls')"
    and "sourced E calls0 (all_matched_products st) calls"
  shows "sourced E calls0 (all_matched_products st') calls'"
proof (cases "json_loads E (arguments tc)")
  case None
  with assms show ?thesis by (simp add: process_tool_call_def)
next
  case (Some args)
  show ?thesis
  proof (cases "function_name tc = ''search_products''")
    case False
    with Some assms show ?thesis by (simp add: process_tool_call_def)
  next
    case True
    show ?thesis
    proof (cases "py_get args ''query'' (JStr [])")
      case (Inl e)
      with Some True assms show ?thesis by (simp add: process_tool_call_def)
    next
      case (Inr query)
      obtain rs calls2 where s: "search_products_function E query calls = (rs, calls2)"
        by (cases "search_products_function E query calls")
      from search_products_function_sourced [OF s] obtain ext where
        e: "calls2 = calls @ ext"
           "list_all (\<lambda>r. list_ex (made_from E r) (search_answers E calls ext)) rs" by blast
      have "list_all (\<lambda>p. list_ex (made_from E p) (search_answers E calls ext))
              (map (\<lambda>r. \<lparr>product_name = product_name r, confidence = confidence r,
                          context' = query\<rparr>) rs)"
        using e(2) by (simp add: list_all_iff list_ex_iff made_from_def)
      from sourced_extend [OF assms(2) this] assms(1) e(1) show ?thesis
        by (auto simp: process_tool_call_search [OF Some True Inr s])
    qed
  qed
qed

lemma process_tool_calls_sourced:
  "process_tool_calls E tcs st calls = (Inr st', calls') \<Longrightarrow>
   sourced E calls0 (all_matched_products st) calls \<Longrightarrow>
   sourced E calls0 (all_matched_products st') calls'"
proof (induction tcs arbitrary: st calls)
  case Nil
  then show ?case by simp
next
  case (Cons tc tcs)
  from Cons.prems(1) obtain st1 calls1 where
    a: "process_tool_call E tc st calls = (Inr st1, calls1)" and
    b: "process_tool_calls E tcs st1 calls1 = (Inr st', calls')"
    by (auto split: prod.splits sum.splits)
  from Cons.IH [OF b process_tool_call_sourced [OF a Cons.prems(2)]]
  show ?case .
qed

lemma loop_body_sourced:
  assumes "loop_body E transcript st calls = Inr (st', calls')"
    and "sourced E calls0 (all_matched_products st) calls"
  shows "sourced E calls0 (all_matched_products st') calls'"
proof -
  have "sourced E calls0 (all_matched_products st) (calls @ [ChatCompletion (messages st)])"
    by (rule sourced_log [OF assms(2)]) simp
  with assms(1) show ?thesis
    by (auto simp: loop_body_def Let_def simp del: process_tool_calls.simps
        split: sum.splits list.splits option.splits prod.splits
        dest: process_tool_calls_sourced)
qed

lemma loop_state_sourced:
  "loop_state E transcript calls n = Some (st, calls') \<Longrightarrow>
   sourced E calls (all_matched_products st) calls'"
proof (induction n arbitrary: st calls')
  case 0
  then show ?case by (auto simp: initial_conversation_def sourced_def)
next
  case (Suc n)
  from Suc.prems obtain st1 calls1 where
    s: "loop_state E transcript calls n = Some (st1, calls1)" and
    b: "loop_body E transcript st1 calls1 = Inr (st, calls')"
    by (auto split: option.splits sum.splits)
  from loop_body_sourced [OF b Suc.IH [OF s]] show ?case .
qed





subsection \<open>C8: the iteration cap\<close>

text \<open>
  C8 (as amended). When ten passes have all ended in processed tool calls, the run ends
  without a further round-trip. If every accumulated confidence lies in \<open>[0, 1]\<close> it
  returns a result whose matched products are the accumulated candidates in order, with
  both flags false and the transcript as raw text; otherwise it raises the validation error
  of \<open>MatchedProduct\<close>.
\<close>

theorem iteration_cap_falls_back_to_accumulator:
  assumes "\<not> blank text"
    and "loop_state E text calls max_iterations = Some (st, calls')"
  shows "(confidences_in_range (all_matched_products st) \<longrightarrow>
           (\<exists>r. process_transcript E text calls = (Inr r, calls') \<and>
                list_all2 carries (matched_products r) (all_matched_products st) \<and>
                \<not> competitor_advantage_mentioned r \<and> \<not> bad_placement_mentioned r \<and>
                raw_text r = text)) \<and>
         (\<not> confidences_in_range (all_matched_products st) \<longrightarrow>
           process_transcript E text calls = (Inl ValidationError, calls'))"
proof -
  note t = loop_state_tool_derived [OF assms(2)]
  note p = process_transcript_cap [OF assms]
  have a: "\<exists>r. process_transcript E text calls = (Inr r, calls') \<and>
                list_all2 carries (matched_products r) (all_matched_products st) \<and>
                \<not> competitor_advantage_mentioned r \<and> \<not> bad_placement_mentioned r \<and>
                raw_text r = text"
    if "confidences_in_range (all_matched_products st)"
  proof -
    from from_accumulator_in_range [OF t that] obtain ms where
      ms: "from_accumulator E (all_matched_products st) = Inr ms" by blast
    from from_accumulator_carries [OF t ms] p accumulator_only_Inr [OF assms(1) ms]
    show ?thesis by simp
  qed
  have b: "process_transcript E text calls = (Inl ValidationError, calls')"
    if "\<not> confidences_in_range (all_matched_products st)"
    using p accumulator_only_Inl [OF from_accumulator_out_of_range [OF t that]] by simp
  from a b show ?thesis by blast
qed

theorem iteration_cap_falls_back_to_accumulator_witness:
  "loop_state (scripted (request search_call # replicate 9 (request (other_call ''{}''))) [23 / 25])
     example_transcript [] max_iterations \<noteq> None \<and>
   fst (process_transcript
          (scripted (request search_call # replicate 9 (request (other_call ''{}''))) [23 / 25])
          example_transcript []) =
     Inr \<lparr>matched_products = [castrol (23 / 25)],
          competitor_advantage_mentioned = False, bad_placement_mentioned = False,
          raw_text = example_transcript\<rparr>"
proof -
  let ?E = "scripted (request search_call # replicate 9 (request (other_call ''{}''))) [23 / 25]"
  let ?s = "loop_state ?E example_transcript [] max_iterations"
  have h1: "\<not> blank example_transcript"
    by code_simp
  have ne: "?s \<noteq> None"
    by code_simp
  have h3: "confidences_in_range (all_matched_products (fst (the ?s)))"
    by code_simp
  have v: "fst (process_transcript ?E example_transcript []) =
     Inr \<lparr>matched_products = [castrol (23 / 25)],
          competitor_advantage_mentioned = False, bad_placement_mentioned = False,
          raw_text = example_transcript\<rparr>"
    by code_simp
  from iteration_cap_falls_back_to_accumulator [OF h1 loop_state_the [OF ne]] h3
  have "\<exists>r. process_transcript ?E example_transcript [] = (Inr r, snd (the ?s))"
    by blast
  with ne v show ?thesis by simp
qed

text \<open>
  The claim as it was stated fails: a search result with score \<open>1.5\<close> passes the
  threshold, is accumulated with confidence \<open>1.5\<close>, and the construction of its
  \<open>MatchedProduct\<close> at the cap raises.
\<close>

theorem iteration_cap_raises_on_confidence:
  "loop_state (scripted (request search_call # replicate 9 (request (other_call ''{}''))) [3 / 2])
     example_transcript [] max_iterations \<noteq> None \<and>
   fst (process_transcript
          (scripted (request search_call # replicate 9 (request (other_call ''{}''))) [3 / 2])
          example_transcript []) = Inl ValidationError"
proof -
  let ?E = "scripted (request search_call # replicate 9 (request (other_call ''{}''))) [3 / 2]"
  have a: "loop_state ?E example_transcript [] max_iterations \<noteq> None"
    by code_simp
  have b: "fst (process_transcript ?E example_transcript []) = Inl ValidationError"
    by code_simp
  from a b show ?thesis by simp
qed

subsection \<open>C7: a final message without JSON\<close>


lemma final_answer_unparsed:
  "parse_final_content E c = None \<Longrightarrow>
   final_answer E transcript acc (Some c) = accumulator_only E transcript acc"
  by (simp add: final_answer_def)

text \<open>
  C7 (as amended). When the model's final message is a text in which the code finds no
  JSON (the text between the first \<open>{\<close> and the last \<open>}\<close> when there is one, the whole
  text otherwise, is rejected by \<open>json.loads\<close>), the parse error is not raised. If every
  accumulated confidence lies in \<open>[0, 1]\<close> the run returns a result whose matched products
  are the accumulated candidates in order, with both flags false; otherwise it raises the
  validation error of \<open>MatchedProduct\<close>.
\<close>

theorem unparsable_answer_falls_back_to_accumulator:
  assumes "\<not> blank text"
    and "loop_state E text calls n = Some (st, calls')"
    and "n < max_iterations"
    and "chat_completion E calls' (messages st) = Inr (message # others)"
    and "is_final message"
    and "content message = Some c"
    and "parse_final_content E c = None"
  shows "(confidences_in_range (all_matched_products st) \<longrightarrow>
           (\<exists>r. process_transcript E text calls = (Inr r, calls' @ [ChatCompletion (messages st)]) \<and>
                list_all2 carries (matched_products r) (all_matched_products st) \<and>
                \<not> competitor_advantage_mentioned r \<and> \<not> bad_placement_mentioned r \<and>
                raw_text r = text)) \<and>
         (\<not> confidences_in_range (all_matched_products st) \<longrightarrow>
           process_transcript E text calls =
             (Inl ValidationError, calls' @ [ChatCompletion (messages st)]))"
proof -
  note t = loop_state_tool_derived [OF assms(2)]
  have p: "process_transcript E text calls =
             (accumulator_only E text (all_matched_products st),
              calls' @ [ChatCompletion (messages st)])"
    using process_transcript_final [OF assms(1) assms(2) assms(3) assms(4) assms(5)]
      final_answer_unparsed [OF assms(7)] assms(6) by simp
  have a: "\<exists>r. process_transcript E text calls = (Inr r, calls' @ [ChatCompletion (messages st)]) \<and>
                list_all2 carries (matched_products r) (all_matched_products st) \<and>
                \<not> competitor_advantage_mentioned r \<and> \<not> bad_placement_mentioned r \<and>
                raw_text r = text"
    if "confidences_in_range (all_matched_products st)"
  proof -
    from from_accumulator_in_range [OF t that] obtain ms where
      ms: "from_accumulator E (all_matched_products st) = Inr ms" by blast
    from from_accumulator_carries [OF t ms] p accumulator_only_Inr [OF assms(1) ms]
    show ?thesis by simp
  qed
  have b: "process_transcript E text calls =
             (Inl ValidationError, calls' @ [ChatCompletion (messages st)])"
    if "\<not> confidences_in_range (all_matched_products st)"
    using p accumulator_only_Inl [OF from_accumulator_out_of_range [OF t that]] by simp
  from a b show ?thesis by blast
qed

theorem unparsable_answer_falls_back_to_accumulator_witness:
  "parse_final_content (scripted [request search_call, answer ''Nalezen jeden produkt.''] [23 / 25])
     ''Nalezen jeden produkt.'' = None \<and>
   fst (process_transcript
          (scripted [request search_call, answer ''Nalezen jeden produkt.''] [23 / 25])
          example_transcript []) =
     Inr \<lparr>matched_products = [castrol (23 / 25)],
          competitor_advantage_mentioned = False, bad_placement_mentioned = False,
          raw_text = example_transcript\<rparr>"
proof -
  let ?E = "scripted [request search_call, answer ''Nalezen jeden produkt.''] [23 / 25]"
  let ?s = "loop_state ?E example_transcript [] 1"
  have h1: "\<not> blank example_transcript"
    by code_simp
  have ne: "?s \<noteq> None"
    by code_simp
  have h3: "1 < max_iterations"
    by (simp add: max_iterations_def)
  have h4: "chat_completion ?E (snd (the ?s)) (messages (fst (the ?s))) =
              Inr (answer ''Nalezen jeden produkt.'' # [])"
    by code_simp
  have h5: "is_final (answer ''Nalezen jeden produkt.'')"
    by (simp add: is_final_def answer_def)
  have h6: "content (answer ''Nalezen jeden produkt.'') = Some ''Nalezen jeden produkt.''"
    by (simp add: answer_def)
  have h7: "parse_final_content ?E ''Nalezen jeden produkt.'' = None"
    by code_simp
  have r: "confidences_in_range (all_matched_products (fst (the ?s)))"
    by code_simp
  have v: "fst (process_transcript ?E example_transcript []) =
     Inr \<lparr>matched_products = [castrol (23 / 25)],
          competitor_advantage_mentioned = False, bad_placement_mentioned = False,
          raw_text = example_transcript\<rparr>"
    by code_simp
  from unparsable_answer_falls_back_to_accumulator [OF h1 loop_state_the [OF ne] h3 h4 h5 h6 h7] r
  have "\<exists>r. process_transcript ?E example_transcript [] =
              (Inr r, snd (the ?s) @ [ChatCompletion (messages (fst (the ?s)))])"
    by blast
  with h7 v show ?thesis by simp
qed

text \<open>
  The claim as it was stated fails: with an accumulated candidate of score \<open>1.5\<close> and a final
  message that has no \<open>{\<close> and is no JSON, the run raises.
\<close>

theorem unparsable_answer_raises_on_confidence:
  "str_find ''Nalezen jeden produkt.'' (CHR ''{'') = - 1 \<and>
   json_loads (scripted [request search_call, answer ''Nalezen jeden produkt.''] [3 / 2])
     ''Nalezen jeden produkt.'' = None \<and>
   fst (process_transcript
          (scripted [request search_call, answer ''Nalezen jeden produkt.''] [3 / 2])
          example_transcript []) = Inl ValidationError"
proof -
  let ?E = "scripted [request search_call, answer ''Nalezen jeden produkt.''] [3 / 2]"
  have a: "str_find ''Nalezen jeden produkt.'' (CHR ''{'') = - 1"
    by code_simp
  have b: "json_loads ?E ''Nalezen jeden produkt.'' = None"
    by code_simp
  have c: "fst (process_transcript ?E example_transcript []) = Inl ValidationError"
    by code_simp
  from a b c show ?thesis by simp
qed

subsection \<open>C1: a final message with JSON\<close>

lemma ProcessingResult_init_Inr:
  "ProcessingResult_init E ms ca bp transcript = Inr r \<Longrightarrow>
   matched_products r = ms \<and> coerce_bool E ca = Some (competitor_advantage_mentioned r) \<and>
   coerce_bool E bp = Some (bad_placement_mentioned r) \<and> raw_text r = transcript"
  by (auto simp: ProcessingResult_init_def split: option.splits if_splits)

lemma build_result_Inr_object:
  "build_result E transcript acc result_data = Inr r \<Longrightarrow> \<exists>d. result_data = JObj d"
  by (cases result_data) (auto simp: build_result_def py_get_def split: sum.splits)








subsection \<open>C9: a product of the model's JSON that violates the schema\<close>





lemma MatchedProduct_kwargs_missing_field:
  "map_of d ''product_name'' = None \<or> map_of d ''confidence'' = None \<or>
   map_of d ''context'' = None \<Longrightarrow>
   MatchedProduct_kwargs E (JObj d) = Inl ValidationError"
  by (auto simp: MatchedProduct_kwargs_def MatchedProduct_init_def split: option.splits)

lemma MatchedProduct_kwargs_confidence_out_of_range:
  "map_of d ''confidence'' = Some (JNum x) \<Longrightarrow> x < 0 \<or> 1 < x \<Longrightarrow>
   MatchedProduct_kwargs E (JObj d) = Inl ValidationError"
  by (auto simp: MatchedProduct_kwargs_def MatchedProduct_init_def coerce_float_def
      split: option.splits)



subsection \<open>C5: from a similarity score to a confidence\<close>

lemma accumulator_only_Inr_from:
  "accumulator_only E transcript acc = Inr r \<Longrightarrow>
   from_accumulator E acc = Inr (matched_products r)"
  by (auto simp: accumulator_only_def split: sum.splits dest: ProcessingResult_init_Inr)

lemma build_result_Inr_from:
  assumes "build_result E transcript acc result_data = Inr r" and "acc \<noteq> []"
  shows "from_accumulator E acc = Inr (matched_products r)"
proof (cases "from_accumulator E acc")
  case (Inl e)
  with assms show ?thesis by (simp add: build_result_def)
next
  case (Inr ms)
  with assms have "matched_products r = ms"
    by (auto simp: build_result_def split: sum.splits dest: ProcessingResult_init_Inr)
  with Inr show ?thesis by simp
qed

lemma final_answer_Inr_from:
  "final_answer E transcript acc fc = Inr r \<Longrightarrow> acc \<noteq> [] \<Longrightarrow>
   from_accumulator E acc = Inr (matched_products r)"
  by (auto simp: final_answer_def split: option.splits
      dest: accumulator_only_Inr_from build_result_Inr_from)

lemma list_all2_list_all:
  "list_all2 R xs ys \<Longrightarrow> list_all Q ys \<Longrightarrow> (\<And>x y. R x y \<Longrightarrow> Q y \<Longrightarrow> P x) \<Longrightarrow>
   list_all P xs"
  by (induction rule: list_all2_induct) auto

lemma carries_made_from:
  "carries m p \<Longrightarrow> made_from E p sr \<Longrightarrow>
   mp_product_name m = sr_product_name sr \<and> CONFIDENCE_THRESHOLD E \<le> score sr \<and>
   rounded_to_hundredths (score sr) (mp_confidence m)"
  by (simp add: carries_def made_from_def py_round_rounded_to_hundredths)

text \<open>
  C5 (as amended). Take a run that ends, at the iteration cap or with a final message,
  with a non-empty accumulator and returns a result. Every matched product of the result
  then comes from a search result that the vector search returned during the run: it has
  that result's name, the result's score is at or above the threshold, and the confidence
  is that score rounded to two decimals, that is (up to the representation error of a
  double) the hundredth \<open>k / 100\<close> whose \<open>k\<close> is the integer nearest to a hundred times
  the score, the even one at a tie. The confidence is therefore greater than the score
  whenever the score is rounded up.
\<close>

theorem confidence_is_rounded_score:
  assumes "\<not> blank text"
    and "loop_state E text calls n = Some (st, calls')"
    and "n = max_iterations \<or>
         (n < max_iterations \<and> chat_completion E calls' (messages st) = Inr (message # others) \<and>
          is_final message)"
    and "all_matched_products st \<noteq> []"
    and "process_transcript E text calls = (Inr r, calls2)"
  shows "list_all
           (\<lambda>m. list_ex
                  (\<lambda>sr. mp_product_name m = sr_product_name sr \<and>
                        CONFIDENCE_THRESHOLD E \<le> score sr \<and>
                        rounded_to_hundredths (score sr) (mp_confidence m))
                  (search_answers E calls (drop (length calls) calls')))
           (matched_products r)"
proof -
  have f: "from_accumulator E (all_matched_products st) = Inr (matched_products r)"
  proof (cases "n = max_iterations")
    case True
    with process_transcript_cap [OF assms(1)] assms(2) assms(5)
    have "accumulator_only E text (all_matched_products st) = Inr r" by simp
    then show ?thesis by (rule accumulator_only_Inr_from)
  next
    case False
    with assms(3) have n: "n < max_iterations"
      and c: "chat_completion E calls' (messages st) = Inr (message # others)"
      and i: "is_final message" by simp_all
    from process_transcript_final [OF assms(1) assms(2) n c i] assms(5)
    have "final_answer E text (all_matched_products st) (content message) = Inr r" by simp
    then show ?thesis using assms(4) by (rule final_answer_Inr_from)
  qed
  note c = from_accumulator_carries [OF loop_state_tool_derived [OF assms(2)] f]
  from loop_state_sourced [OF assms(2)]
  have s: "list_all (\<lambda>p. list_ex (made_from E p)
                            (search_answers E calls (drop (length calls) calls')))
             (all_matched_products st)"
    by (simp add: sourced_def)
  show ?thesis
  proof (rule list_all2_list_all [OF c s])
    fix m p
    assume "carries m p"
      and "list_ex (made_from E p) (search_answers E calls (drop (length calls) calls'))"
    then show "list_ex
                 (\<lambda>sr. mp_product_name m = sr_product_name sr \<and>
                       CONFIDENCE_THRESHOLD E \<le> score sr \<and>
                       rounded_to_hundredths (score sr) (mp_confidence m))
                 (search_answers E calls (drop (length calls) calls'))"
      by (auto simp: list_ex_iff dest: carries_made_from)
  qed
qed

theorem confidence_is_rounded_score_witness:
  "fst (process_transcript
          (scripted [request search_call, answer ''{}''] [107 / 125, 7 / 8, 1 / 2])
          example_transcript []) =
     Inr \<lparr>matched_products = [castrol (43 / 50), castrol (22 / 25)],
          competitor_advantage_mentioned = False, bad_placement_mentioned = False,
          raw_text = example_transcript\<rparr> \<and>
   search_answers (scripted [request search_call, answer ''{}''] [107 / 125, 7 / 8, 1 / 2]) []
     (snd (the (loop_state
        (scripted [request search_call, answer ''{}''] [107 / 125, 7 / 8, 1 / 2])
        example_transcript [] 1))) =
     map catalogue_entry [107 / 125, 7 / 8, 1 / 2] \<and>
   list_all
     (\<lambda>m. list_ex
            (\<lambda>sr. mp_product_name m = sr_product_name sr \<and>
                  CONFIDENCE_THRESHOLD
                    (scripted [request search_call, answer ''{}''] [107 / 125, 7 / 8, 1 / 2])
                    \<le> score sr \<and>
                  rounded_to_hundredths (score sr) (mp_confidence m))
            (map catalogue_entry [107 / 125, 7 / 8, 1 / 2]))
     [castrol (43 / 50), castrol (22 / 25)]"
proof -
  let ?E = "scripted [request search_call, answer ''{}''] [107 / 125, 7 / 8, 1 / 2]"
  let ?s = "loop_state ?E example_transcript [] 1"
  let ?r = "\<lparr>matched_products = [castrol (43 / 50), castrol (22 / 25)],
          competitor_advantage_mentioned = False, bad_placement_mentioned = False,
          raw_text = example_transcript\<rparr>"
  have h1: "\<not> blank example_transcript"
    by code_simp
  have ne: "?s \<noteq> None"
    by code_simp
  have c: "chat_completion ?E (snd (the ?s)) (messages (fst (the ?s))) = Inr (answer ''{}'' # [])"
    by code_simp
  have h3: "1 = max_iterations \<or>
            (1 < max_iterations \<and>
             chat_completion ?E (snd (the ?s)) (messages (fst (the ?s))) =
               Inr (answer ''{}'' # []) \<and>
             is_final (answer ''{}''))"
    using c by (simp add: max_iterations_def is_final_def answer_def)
  have h4: "all_matched_products (fst (the ?s)) \<noteq> []"
    by code_simp
  have v: "fst (process_transcript ?E example_transcript []) = Inr ?r"
    by code_simp
  have sa: "search_answers ?E [] (snd (the ?s)) = map catalogue_entry [107 / 125, 7 / 8, 1 / 2]"
    by code_simp
  from confidence_is_rounded_score [OF h1 loop_state_the [OF ne] h3 h4 fst_outcome [OF v]]
  have "list_all
     (\<lambda>m. list_ex
            (\<lambda>sr. mp_product_name m = sr_product_name sr \<and>
                  CONFIDENCE_THRESHOLD ?E \<le> score sr \<and>
                  rounded_to_hundredths (score sr) (mp_confidence m))
            (search_answers ?E [] (snd (the ?s))))
     [castrol (43 / 50), castrol (22 / 25)]"
    by simp
  then have "list_all
     (\<lambda>m. list_ex
            (\<lambda>sr. mp_product_name m = sr_product_name sr \<and>
                  CONFIDENCE_THRESHOLD ?E \<le> score sr \<and>
                  rounded_to_hundredths (score sr) (mp_confidence m))
            (map catalogue_entry [107 / 125, 7 / 8, 1 / 2]))
     [castrol (43 / 50), castrol (22 / 25)]"
    unfolding sa .
  with v sa show ?thesis by blast
qed

text \<open>
  The claim as it was stated fails: a score of \<open>0.856\<close> is reported as the confidence
  \<open>0.86\<close>, which is greater than the score.
\<close>

theorem confidence_exceeds_score:
  "fst (process_transcript (scripted [request search_call, answer ''{}''] [107 / 125])
          example_transcript []) =
     Inr \<lparr>matched_products = [castrol (43 / 50)], competitor_advantage_mentioned = False,
          bad_placement_mentioned = False, raw_text = example_transcript\<rparr> \<and>
   (107 / 125 :: rat) < 43 / 50"
proof -
  have "fst (process_transcript (scripted [request search_call, answer ''{}''] [107 / 125])
          example_transcript []) =
     Inr \<lparr>matched_products = [castrol (43 / 50)], competitor_advantage_mentioned = False,
          bad_placement_mentioned = False, raw_text = example_transcript\<rparr>"
    by code_simp
  then show ?thesis by simp
qed

end
